theory Spec2Isabelle
  imports Complex_Main
begin

section \<open>Shallow embedding of the worm shape model\<close>

text \<open>
  The development follows \<^verbatim>\<open>src/worm/model.py\<close> and \<^verbatim>\<open>src/worm/geometry.py\<close>.
  numpy arrays of shape \<open>(n, 2)\<close> are lists of points, arrays of shape \<open>(n)\<close> are lists
  of reals. Floating point numbers are modelled by the reals (no rounding, no signed
  zero, no NaN unless a value is given an \<open>option\<close> type). Every exception the source
  can raise inside the modelled lines is a value of type \<open>error\<close>. The arrays that a
  WormModel object holds keep the data type they were stored with, since numpy's
  in-place operations depend on it.
\<close>

datatype error =
  ValueError | TypeError | AttributeError | IndexError | AxisError | ZeroDivisionError
| UFuncTypeError

type_synonym point = "real \<times> real"

subsection \<open>numpy helpers\<close>

text \<open>\<^verbatim>\<open>np.linspace(a, b, n)\<close>: \<open>n\<close> equally spaced samples from \<open>a\<close> to \<open>b\<close>, both included.\<close>

definition linspace :: "real \<Rightarrow> real \<Rightarrow> nat \<Rightarrow> real list" where
  "linspace a b n =
     (if n = 1 then [a]
      else map (\<lambda>i. a + real i * ((b - a) / real (n - 1))) [0..<n])"

text \<open>
  An array is stored with a data type. The two that matter here are \<^verbatim>\<open>int64\<close>, which
  numpy gives to arrays built from Python integers, and \<^verbatim>\<open>float64\<close>. Arithmetic on
  \<^verbatim>\<open>int64\<close> wraps around.
\<close>

datatype array1 = IntArray1 "int list" | FloatArray1 "real list"

datatype array2 = IntArray2 "(int \<times> int) list" | FloatArray2 "point list"


text \<open>\<^verbatim>\<open>len(a)\<close> and \<^verbatim>\<open>a.shape[0]\<close>.\<close>

fun len1 :: "array1 \<Rightarrow> nat" where
  "len1 (IntArray1 v) = length v"
| "len1 (FloatArray1 v) = length v"

fun shape0 :: "array2 \<Rightarrow> nat" where
  "shape0 (IntArray2 ps) = length ps"
| "shape0 (FloatArray2 ps) = length ps"

text \<open>\<^verbatim>\<open>a.flatten()\<close> of an \<open>(n, 2)\<close> array, row major; the data type is kept.\<close>

fun flatten :: "('a \<times> 'a) list \<Rightarrow> 'a list" where
  "flatten [] = []"
| "flatten ((x, y) # ps) = x # y # flatten ps"

fun flatten_array :: "array2 \<Rightarrow> array1" where
  "flatten_array (IntArray2 ps) = IntArray1 (flatten ps)"
| "flatten_array (FloatArray2 ps) = FloatArray1 (flatten ps)"

text \<open>
  \<^verbatim>\<open>np.reshape(v, (n, 2))\<close> of a one-dimensional array: it raises ValueError unless
  \<open>v\<close> has exactly \<open>2 * n\<close> entries. The data type is kept.
\<close>

fun pairs :: "'a list \<Rightarrow> ('a \<times> 'a) list" where
  "pairs (x # y # vs) = (x, y) # pairs vs"
| "pairs vs = []"

definition reshape2 :: "'a list \<Rightarrow> nat \<Rightarrow> error + ('a \<times> 'a) list" where
  "reshape2 v n = (if length v = 2 * n then Inr (pairs v) else Inl ValueError)"

fun reshape_array :: "array1 \<Rightarrow> nat \<Rightarrow> error + array2" where
  "reshape_array (IntArray1 v) n =
     (case reshape2 v n of Inl e \<Rightarrow> Inl e | Inr ps \<Rightarrow> Inr (IntArray2 ps))"
| "reshape_array (FloatArray1 v) n =
     (case reshape2 v n of Inl e \<Rightarrow> Inl e | Inr ps \<Rightarrow> Inr (FloatArray2 ps))"

text \<open>Python slicing \<^verbatim>\<open>v[istr:iend]\<close> with \<open>0 \<le> istr\<close>, \<open>0 \<le> iend\<close>: out of range bounds are clipped.\<close>

definition slice :: "'a list \<Rightarrow> nat \<Rightarrow> nat \<Rightarrow> 'a list" where
  "slice v istr iend = take (iend - istr) (drop istr v)"

fun slice_array :: "array1 \<Rightarrow> nat \<Rightarrow> nat \<Rightarrow> array1" where
  "slice_array (IntArray1 v) istr iend = IntArray1 (slice v istr iend)"
| "slice_array (FloatArray1 v) istr iend = FloatArray1 (slice v istr iend)"

text \<open>
  \<^verbatim>\<open>np.hstack\<close> of two one-dimensional arrays: the result is \<^verbatim>\<open>float64\<close> as soon as
  one of them is. \<^verbatim>\<open>np.hstack\<close> of more arrays is the same, from the right.
\<close>

fun hstack :: "array1 \<Rightarrow> array1 \<Rightarrow> array1" where
  "hstack (IntArray1 a) (IntArray1 b) = IntArray1 (a @ b)"
| "hstack (IntArray1 a) (FloatArray1 b) = FloatArray1 (map real_of_int a @ b)"
| "hstack (FloatArray1 a) (IntArray1 b) = FloatArray1 (a @ map real_of_int b)"
| "hstack (FloatArray1 a) (FloatArray1 b) = FloatArray1 (a @ b)"

subsection \<open>WormModel (model.py)\<close>

text \<open>
  A field that the constructor fills with a Python float and that \<^verbatim>\<open>set_parameter\<close>
  overwrites with a slice (a one-dimensional array).
\<close>

datatype num = Float real | Array1 array1

text \<open>\<^verbatim>\<open>np.hstack\<close> takes a scalar as an array of one entry.\<close>

fun atleast_1d :: "num \<Rightarrow> array1" where
  "atleast_1d (Float x) = FloatArray1 [x]"
| "atleast_1d (Array1 v) = v"

text \<open>The attributes \<^verbatim>\<open>self.length\<close>, \<^verbatim>\<open>self.center\<close>, ... of a WormModel object.\<close>

record WormModel =
  self_length :: num
  self_xy :: point
  self_speed :: num
  self_center :: array2
  self_npoints :: nat
  self_width :: array1
  self_nparameter :: nat
  self_nparameter_total :: nat
  self_position_index :: "int list"

text \<open>
  The constructor's \<^verbatim>\<open>center\<close> argument is \<^verbatim>\<open>None\<close>, a \<^verbatim>\<open>Curve\<close> object (of which
  only \<^verbatim>\<open>.values\<close> is read and stored as it is) or array data, which
  \<^verbatim>\<open>np.array(center, dtype = float)\<close> converts to \<^verbatim>\<open>float64\<close>; \<^verbatim>\<open>width\<close> is \<^verbatim>\<open>None\<close>,
  a \<^verbatim>\<open>Spline\<close> (again only \<^verbatim>\<open>.values\<close>) or array data, converted likewise.
\<close>

datatype center_arg = Curve array2 | CenterArray "point list"

datatype width_arg = Spline array1 | WidthArray "real list"

text \<open>\<^verbatim>\<open>geometry.default_width(npoints)\<close> for an integer \<open>npoints\<close>.\<close>

definition default_width_w :: "real \<Rightarrow> real" where
  "default_width_w x =
     (let a = 9.56 * 0.5; b = 0.351
      in a * (x powr b) * ((1 - x) powr b) * (0.5 powr (- 2 * b)))"

definition default_width :: "nat \<Rightarrow> real list" where
  "default_width n = map default_width_w (linspace 0 1 n)"

definition WormModel_init ::
  "center_arg option \<Rightarrow> width_arg option \<Rightarrow> point \<Rightarrow> real \<Rightarrow> nat \<Rightarrow> error + WormModel" where
  "WormModel_init center_a width_a xy_a length_a npoints_a =
     (let c = (case center_a of
                 None \<Rightarrow> FloatArray2
                   (map (\<lambda>x. (x + fst xy_a, 0 + snd xy_a)) (linspace 0 1 npoints_a))
               | Some (Curve vs) \<Rightarrow> vs
               | Some (CenterArray vs) \<Rightarrow> FloatArray2 vs);
          n = shape0 c;
          w = (case width_a of
                 None \<Rightarrow> FloatArray1 (default_width n)
               | Some (Spline vs) \<Rightarrow> vs
               | Some (WidthArray vs) \<Rightarrow> FloatArray1 vs)
      in if n \<noteq> len1 w then Inl ValueError
         else Inr \<lparr> self_length = Float length_a, self_xy = xy_a, self_speed = Float 0.0,
                    self_center = c, self_npoints = n, self_width = w,
                    self_nparameter = 2 * n, self_nparameter_total = 2 * n + 2 + n,
                    self_position_index = [int (2 * n) - 2, int (2 * n) - 1] \<rparr>)"

definition get_parameter :: "WormModel \<Rightarrow> bool \<Rightarrow> array1" where
  "get_parameter m full =
     (let par = flatten_array (self_center m)
      in if full
         then hstack par (hstack (atleast_1d (self_length m))
                (hstack (atleast_1d (self_speed m)) (self_width m)))
         else par)"

text \<open>
  \<^verbatim>\<open>set_parameter\<close> assigns the fields one after the other, so an exception leaves the
  earlier assignments in place: the result is the model as the call leaves it and the
  exception, if one was raised. The slices of the parameter vector are stored as they
  are, with the data type of the vector. The \<^verbatim>\<open>width\<close> field holds a numpy array, and a
  numpy array has no attribute \<^verbatim>\<open>nparameter\<close>: evaluating \<^verbatim>\<open>self.width.nparameter\<close>
  raises AttributeError.
\<close>

definition ndarray_nparameter :: "array1 \<Rightarrow> error + nat" where
  "ndarray_nparameter a = Inl AttributeError"

definition set_parameter :: "WormModel \<Rightarrow> array1 \<Rightarrow> WormModel \<times> error option" where
  "set_parameter m parameter =
     (let istr = 0; iend = 2 * self_npoints m
      in case reshape_array (slice_array parameter istr iend) (self_npoints m) of
           Inl e \<Rightarrow> (m, Some e)
         | Inr c \<Rightarrow>
            (let m1 = m\<lparr>self_center := c\<rparr>
             in if len1 parameter > self_nparameter m1 then
                  (let istr = iend; iend = iend + 1;
                       m2 = m1\<lparr>self_length := Array1 (slice_array parameter istr iend)\<rparr>;
                       istr = iend; iend = iend + 1;
                       m3 = m2\<lparr>self_speed := Array1 (slice_array parameter istr iend)\<rparr>
                   in case ndarray_nparameter (self_width m3) of
                        Inl e \<Rightarrow> (m3, Some e)
                      | Inr k \<Rightarrow>
                         (let istr = iend; iend = iend + k
                          in (m3\<lparr>self_width := slice_array parameter istr iend\<rparr>, None)))
                else (m1, None)))"

text \<open>
  \<^verbatim>\<open>from_center\<close> stores the center line, and the width when one is given, as the
  caller passes them.
\<close>

definition from_center :: "WormModel \<Rightarrow> array2 \<Rightarrow> array1 option \<Rightarrow> WormModel" where
  "from_center m center_a width_a =
     (let m1 = m\<lparr>self_center := center_a\<rparr>
      in case width_a of None \<Rightarrow> m1 | Some w \<Rightarrow> m1\<lparr>self_width := w\<rparr>)"




subsection \<open>numpy helpers for geometry.py\<close>

text \<open>Python indexing \<^verbatim>\<open>a[i]\<close>: a negative index counts from the end, out of range raises.\<close>

definition get :: "'a list \<Rightarrow> int \<Rightarrow> error + 'a" where
  "get a i =
     (if 0 \<le> i \<and> i < int (length a) then Inr (a ! nat i)
      else if i < 0 \<and> 0 \<le> int (length a) + i then Inr (a ! nat (int (length a) + i))
      else Inl IndexError)"

text \<open>
  \<^verbatim>\<open>np.arctan2(y, x)\<close>, the angle of the point \<open>(x, y)\<close> in \<open>[-\<pi>, \<pi>]\<close>; on the reals
  there is no negative zero, so the value at \<open>y = 0\<close>, \<open>x < 0\<close> is \<open>\<pi>\<close>.
\<close>

definition arctan2 :: "real \<Rightarrow> real \<Rightarrow> real" where
  "arctan2 y x =
     (if 0 < x then arctan (y / x)
      else if x < 0 then (if 0 \<le> y then arctan (y / x) + pi else arctan (y / x) - pi)
      else if 0 < y then pi / 2
      else if y < 0 then - (pi / 2)
      else 0)"

text \<open>
  \<^verbatim>\<open>np.mod(a, b)\<close> on floats, \<open>b \<noteq> 0\<close>: the remainder has the sign of \<open>b\<close>. On the
  reals it is below \<open>b\<close> for a positive \<open>b\<close>. In floating point the sum that numpy
  returns for a tiny negative \<open>a\<close> rounds to \<open>b\<close> itself, which the reals do not show;
  bounds on an angle wrapped with it are therefore stated with both ends included.
\<close>

definition np_mod :: "real \<Rightarrow> real \<Rightarrow> real" where
  "np_mod a b = a - b * of_int \<lfloor>a / b\<rfloor>"

text \<open>\<^verbatim>\<open>np.diff\<close> of a one-dimensional array and of an \<open>(n, 2)\<close> array along axis 0.\<close>

fun diff :: "real list \<Rightarrow> real list" where
  "diff (a # b # as) = (b - a) # diff (b # as)"
| "diff as = []"

fun diff2 :: "point list \<Rightarrow> point list" where
  "diff2 (p # q # ps) = (fst q - fst p, snd q - snd p) # diff2 (q # ps)"
| "diff2 ps = []"

text \<open>\<^verbatim>\<open>np.cumsum\<close>: running sums, \<open>acc\<close> is the sum of the entries already passed.\<close>

fun cumsum_from :: "real \<Rightarrow> real list \<Rightarrow> real list" where
  "cumsum_from acc [] = []"
| "cumsum_from acc (a # as) = (acc + a) # cumsum_from (acc + a) as"

definition cumsum :: "real list \<Rightarrow> real list" where
  "cumsum as = cumsum_from 0 as"

text \<open>Euclidean norm of a row, as \<^verbatim>\<open>np.linalg.norm(a, axis = 1)\<close> takes it of every row.\<close>

definition norm2 :: "point \<Rightarrow> real" where
  "norm2 p = sqrt ((fst p)\<^sup>2 + (snd p)\<^sup>2)"

text \<open>
  \<^verbatim>\<open>np.linalg.norm(a, axis = 0)\<close> of an \<open>(n, 2)\<close> array: the norm of each of the two
  columns, an array of two entries whatever \<open>n\<close> is.
\<close>

definition norm_axis0 :: "point list \<Rightarrow> real list" where
  "norm_axis0 a = [sqrt (sum_list (map (\<lambda>p. (fst p)\<^sup>2) a)),
                   sqrt (sum_list (map (\<lambda>p. (snd p)\<^sup>2) a))]"

text \<open>
  An elementwise operation of two arrays whose first axes have lengths \<open>n\<close> and \<open>m\<close>:
  numpy broadcasts an axis of length one and raises ValueError when the lengths differ
  otherwise.
\<close>

definition broadcast :: "('a \<Rightarrow> 'b \<Rightarrow> 'c) \<Rightarrow> 'a list \<Rightarrow> 'b list \<Rightarrow> error + 'c list" where
  "broadcast f a b =
     (if length a = length b then Inr (map2 f a b)
      else if length a = 1 then Inr (map (f (hd a)) b)
      else if length b = 1 then Inr (map (\<lambda>x. f x (hd b)) a)
      else Inl ValueError)"

definition padd :: "point \<Rightarrow> point \<Rightarrow> point" where
  "padd p q = (fst p + fst q, snd p + snd q)"

definition psub :: "point \<Rightarrow> point \<Rightarrow> point" where
  "psub p q = (fst p - fst q, snd p - snd q)"

definition pmul :: "point \<Rightarrow> point \<Rightarrow> point" where
  "pmul p q = (fst p * fst q, snd p * snd q)"

definition pscale :: "real \<Rightarrow> point \<Rightarrow> point" where
  "pscale c p = (c * fst p, c * snd p)"

text \<open>
  The resampling of a polyline, \<^verbatim>\<open>interpolation.resampling.resample\<close>, is not part of
  the sources; the functions below take it as a parameter, one function for
  one-dimensional arrays and one for \<open>(n, 2)\<close> arrays. The arguments are the array, the
  number of points and the smoothing factor when the call passes one.
\<close>

record externals =
  resample_curve :: "real list \<Rightarrow> int \<Rightarrow> real option \<Rightarrow> real list"
  resample_curve2 :: "point list \<Rightarrow> int \<Rightarrow> real option \<Rightarrow> point list"

text \<open>
  An instance of the external routines, for evaluating the functions on concrete
  inputs. It returns the array as it is; with the default arguments and arrays of
  matching lengths the functions below do not call it.
\<close>

definition no_resampling :: externals where
  "no_resampling = \<lparr>resample_curve = (\<lambda>a n s. a), resample_curve2 = (\<lambda>a n s. a)\<rparr>"

subsection \<open>Center line from the two sides (geometry.py)\<close>

text \<open>
  \<^verbatim>\<open>center_from_sides_mean\<close>; \<^verbatim>\<open>npoints\<close> and \<^verbatim>\<open>nsamples\<close> are \<open>None\<close> for the
  default \<^verbatim>\<open>all\<close>. The result is the center line and, with \<^verbatim>\<open>with_width\<close>, the width.
\<close>

definition center_from_sides_mean ::
  "externals \<Rightarrow> point list \<Rightarrow> point list \<Rightarrow> int option \<Rightarrow> int option \<Rightarrow> bool \<Rightarrow> bool
     \<Rightarrow> error + (point list \<times> real list option)" where
  "center_from_sides_mean ext left right npoints_a nsamples_a resample with_width =
     (let nl = int (length left); nr = int (length right);
          nsamples = (case nsamples_a of None \<Rightarrow> max nl nr | Some k \<Rightarrow> k);
          npoints = (case npoints_a of None \<Rightarrow> max nl nr | Some k \<Rightarrow> k);
          resampled = (nl \<noteq> nsamples \<or> nr \<noteq> nsamples \<or> resample);
          leftcurve = (if resampled then resample_curve2 ext left nsamples None else left);
          rightcurve = (if resampled then resample_curve2 ext right nsamples None else right)
      in case broadcast padd leftcurve rightcurve of
           Inl e \<Rightarrow> Inl e
         | Inr s \<Rightarrow>
            (let center = map (\<lambda>p. (fst p / 2, snd p / 2)) s;
                 center = (if npoints \<noteq> nsamples then resample_curve2 ext center npoints None
                           else center)
             in if with_width then
                  (case broadcast psub leftcurve rightcurve of
                     Inl e \<Rightarrow> Inl e
                   | Inr d \<Rightarrow> Inr (center, Some (norm_axis0 d)))
                else Inr (center, None)))"

subsection \<open>Bending angles and center line (geometry.py)\<close>

text \<open>The wrapping \<^verbatim>\<open>np.mod(t + np.pi, 2 * np.pi) - np.pi\<close> that the source applies to angles.\<close>

definition wrap_angle :: "real \<Rightarrow> real" where
  "wrap_angle t = np_mod (t + pi) (2 * pi) - pi"

definition theta_from_center_discrete ::
  "externals \<Rightarrow> point list \<Rightarrow> int option \<Rightarrow> int option \<Rightarrow> bool \<Rightarrow> real
     \<Rightarrow> error + (real list \<times> real \<times> point \<times> real)" where
  "theta_from_center_discrete ext center npoints_a nsamples_a resample smooth =
     (let nc = int (length center);
          npoints = (case npoints_a of None \<Rightarrow> nc | Some k \<Rightarrow> k);
          nsamples = (case nsamples_a of None \<Rightarrow> nc | Some k \<Rightarrow> k);
          n2 = (nsamples - 1) div 2;
          centercurve = (if nsamples \<noteq> nc \<or> resample
                         then resample_curve2 ext center nsamples None else center);
          centervec = diff2 centercurve
      in case get centervec n2 of
           Inl e \<Rightarrow> Inl e
         | Inr t1 \<Rightarrow>
            (let orientation = wrap_angle (arctan2 1 0 - arctan2 (fst t1) (snd t1))
             in case get centercurve n2 of
                  Inl e \<Rightarrow> Inl e
                | Inr xy \<Rightarrow>
                   (let theta = map2 (\<lambda>a b. arctan2 (fst a) (snd a) - arctan2 (fst b) (snd b))
                                  (butlast centervec) (tl centervec);
                        theta = map wrap_angle theta;
                        theta = map (\<lambda>t. t * real_of_int (nsamples - 1)) theta;
                        len = sum_list (map norm2 centervec);
                        theta = (if npoints \<noteq> nsamples \<or> resample
                                 then resample_curve ext theta (npoints - 2) (Some smooth)
                                 else theta)
                    in Inr (theta, orientation, xy, len))))"

text \<open>
  The lines that \<^verbatim>\<open>center_from_theta_discrete\<close> and \<^verbatim>\<open>normals_from_theta_discrete\<close>
  share: the absolute angle of every segment, from the (resampled) bending angles.
  \<^verbatim>\<open>1.0 / (nsamples-1)\<close> raises ZeroDivisionError for \<open>nsamples = 1\<close>.
\<close>

definition integrate_theta ::
  "externals \<Rightarrow> real list \<Rightarrow> real \<Rightarrow> int \<Rightarrow> bool \<Rightarrow> error + (real list \<times> real)" where
  "integrate_theta ext theta orientation nsamples resample =
     (let nt = int (length theta);
          n2 = (nsamples - 1) div 2;
          itheta = (if nsamples \<noteq> nt + 2 \<or> resample
                    then resample_curve ext theta (nsamples - 2) None else theta)
      in if nsamples - 1 = 0 then Inl ZeroDivisionError
         else
           (let delta = 1.0 / real_of_int (nsamples - 1);
                itheta = map (\<lambda>t. t * delta) (cumsum (0 # itheta))
            in case get itheta n2 of
                 Inl e \<Rightarrow> Inl e
               | Inr m \<Rightarrow> Inr (map (\<lambda>t. t + (orientation - m)) itheta, delta)))"

text \<open>
  The normals of both functions: the angles are turned by \<open>\<pi>/2\<close>, the last one is
  repeated and the inner ones are moved back by half the angle difference.
\<close>

definition normals_of_angles :: "real list \<Rightarrow> error + point list" where
  "normals_of_angles itheta =
     (let dtheta = diff itheta;
          itheta = map (\<lambda>t. t + pi / 2) itheta
      in case get itheta (- 1) of
           Inl e \<Rightarrow> Inl e
         | Inr l \<Rightarrow>
            (let itheta = itheta @ [l];
                 inner = map2 (\<lambda>t d. t - d / 2) (butlast (tl itheta)) dtheta;
                 itheta = hd itheta # inner @ [l]
             in Inr (map (\<lambda>t. (cos t, sin t)) itheta)))"

definition center_from_theta_discrete ::
  "externals \<Rightarrow> real list \<Rightarrow> real \<Rightarrow> point \<Rightarrow> real \<Rightarrow> int option \<Rightarrow> int option \<Rightarrow> bool
     \<Rightarrow> real \<Rightarrow> bool \<Rightarrow> error + (point list \<times> point list option)" where
  "center_from_theta_discrete ext theta orientation xy len npoints_a nsamples_a resample
       smooth with_normals =
     (let nt = int (length theta);
          npoints = (case npoints_a of None \<Rightarrow> nt + 2 | Some k \<Rightarrow> k);
          nsamples = (case nsamples_a of None \<Rightarrow> nt + 2 | Some k \<Rightarrow> k);
          n2 = (nsamples - 1) div 2
      in case integrate_theta ext theta orientation nsamples resample of
           Inl e \<Rightarrow> Inl e
         | Inr (itheta, delta) \<Rightarrow>
            (let x = cumsum (map cos itheta);
                 y = cumsum (map sin itheta);
                 center = (0, 0) # zip x y;
                 center = map (pscale (len * delta)) center
             in case get center n2 of
                  Inl e \<Rightarrow> Inl e
                | Inr c2 \<Rightarrow>
                   (let center = map (\<lambda>p. padd p (psub xy c2)) center;
                        center = (if npoints \<noteq> nsamples \<or> resample
                                  then resample_curve2 ext center npoints (Some smooth)
                                  else center)
                    in if with_normals then
                         (let itheta = (if npoints \<noteq> nsamples
                                        then resample_curve ext itheta (npoints - 1) None
                                        else itheta)
                          in case normals_of_angles itheta of
                               Inl e \<Rightarrow> Inl e
                             | Inr ns \<Rightarrow> Inr (center, Some ns))
                       else Inr (center, None))))"

definition normals_from_theta_discrete ::
  "externals \<Rightarrow> real list \<Rightarrow> real \<Rightarrow> int option \<Rightarrow> int option \<Rightarrow> bool
     \<Rightarrow> error + point list" where
  "normals_from_theta_discrete ext theta orientation npoints_a nsamples_a resample =
     (let nt = int (length theta);
          npoints = (case npoints_a of None \<Rightarrow> nt + 2 | Some k \<Rightarrow> k);
          nsamples = (case nsamples_a of None \<Rightarrow> nt + 2 | Some k \<Rightarrow> k)
      in case integrate_theta ext theta orientation nsamples resample of
           Inl e \<Rightarrow> Inl e
         | Inr (itheta, delta) \<Rightarrow>
            normals_of_angles
              (if npoints \<noteq> nsamples then resample_curve ext itheta (npoints - 1) None
               else itheta))"

definition normals_from_center_discrete :: "externals \<Rightarrow> point list \<Rightarrow> error + point list" where
  "normals_from_center_discrete ext center =
     (case theta_from_center_discrete ext center None None False 0 of
        Inl e \<Rightarrow> Inl e
      | Inr (theta, orientation, anchor, len) \<Rightarrow>
          normals_from_theta_discrete ext theta orientation None None False)"

subsection \<open>Side lines from center line and width (geometry.py)\<close>

definition shape_from_center_discrete ::
  "externals \<Rightarrow> point list \<Rightarrow> real list \<Rightarrow> point list option \<Rightarrow> bool
     \<Rightarrow> error + (point list \<times> point list \<times> point list option)" where
  "shape_from_center_discrete ext center width normals_a with_normals =
     (let w = (if length width \<noteq> length center
               then resample_curve ext width (int (length center)) None else width);
          w = map (\<lambda>v. (v, v)) w
      in case (case normals_a of
                 None \<Rightarrow> normals_from_center_discrete ext center
               | Some ns \<Rightarrow> Inr ns) of
           Inl e \<Rightarrow> Inl e
         | Inr normals \<Rightarrow>
            (case broadcast pmul (map (pscale 0.5) w) normals of
               Inl e \<Rightarrow> Inl e
             | Inr off \<Rightarrow>
                (case broadcast padd center off of
                   Inl e \<Rightarrow> Inl e
                 | Inr left \<Rightarrow>
                    (case broadcast psub center off of
                       Inl e \<Rightarrow> Inl e
                     | Inr right \<Rightarrow>
                         Inr (left, right, if with_normals then Some normals else None)))))"

subsection \<open>Shape detection from an image (geometry.py)\<close>

text \<open>
  \<^verbatim>\<open>np.zeros(shape, dtype)\<close>. The second positional argument is the data type; an array
  passed there is not a data type and numpy raises TypeError. A negative size raises
  ValueError.
\<close>

datatype dtype_arg = default_dtype | ndarray_as_dtype "real list"

definition np_zeros1 :: "int \<Rightarrow> error + real list" where
  "np_zeros1 n = (if n < 0 then Inl ValueError else Inr (replicate (nat n) 0))"

definition np_zeros2 :: "int \<Rightarrow> dtype_arg \<Rightarrow> error + point list" where
  "np_zeros2 n dtype =
     (case dtype of
        ndarray_as_dtype a \<Rightarrow> Inl TypeError
      | default_dtype \<Rightarrow> if n < 0 then Inl ValueError else Inr (replicate (nat n) (0, 0)))"

text \<open>
  The contour detection of \<^verbatim>\<open>shape_from_image\<close>, from \<^verbatim>\<open>status = 0\<close> to the
  early return. \<^verbatim>\<open>detect_contour\<close> is not part of the sources: the parameter gives the
  contours found in the smoothed image at a threshold level. The result is either the
  tuple of the early return or the status and the contours the function goes on with.
  The early return builds its tuple from left to right,
  \<^verbatim>\<open>-1, np.zeros((npoints,2)), np.zeros((npoints,2)), np.zeros((npoints,2), np.zeros(npoints))\<close>.
\<close>

datatype 'c detection =
  Failed "int \<times> point list \<times> point list \<times> point list"
| Found int "'c list"

definition shape_from_image_contours ::
  "(real \<Rightarrow> 'c list) \<Rightarrow> real \<Rightarrow> real option \<Rightarrow> int \<Rightarrow> error + 'c detection" where
  "shape_from_image_contours detect_contour level threshold_reduce npoints =
     (let pts = detect_contour level;
          status = 0
      in if length pts = 0 then
           (let (pts, status) =
                  (case threshold_reduce of
                     Some r \<Rightarrow> (detect_contour (r * level), status + 1000)
                   | None \<Rightarrow> (pts, status))
            in if length pts = 0 then
                 (case np_zeros2 npoints default_dtype of
                    Inl e \<Rightarrow> Inl e
                  | Inr z1 \<Rightarrow>
                     (case np_zeros2 npoints default_dtype of
                        Inl e \<Rightarrow> Inl e
                      | Inr z2 \<Rightarrow>
                         (case np_zeros1 npoints of
                            Inl e \<Rightarrow> Inl e
                          | Inr d \<Rightarrow>
                             (case np_zeros2 npoints (ndarray_as_dtype d) of
                                Inl e \<Rightarrow> Inl e
                              | Inr z3 \<Rightarrow> Inr (Failed (- 1, z1, z2, z3))))))
               else Inr (Found status pts))
         else Inr (Found status pts))"

text \<open>
  \<^verbatim>\<open>np.argmin\<close>: the first index of a smallest entry, ValueError on an empty array.
  The order is a parameter, since the source also takes it of arrays with an entry
  \<^verbatim>\<open>np.inf\<close>.
\<close>

fun argmin_from :: "('a \<Rightarrow> 'a \<Rightarrow> bool) \<Rightarrow> 'a list \<Rightarrow> nat \<Rightarrow> 'a \<Rightarrow> nat \<Rightarrow> nat" where
  "argmin_from lt [] i best ibest = ibest"
| "argmin_from lt (a # as) i best ibest =
     (if lt a best then argmin_from lt as (i + 1) a i
      else argmin_from lt as (i + 1) best ibest)"

definition argmin :: "('a \<Rightarrow> 'a \<Rightarrow> bool) \<Rightarrow> 'a list \<Rightarrow> error + nat" where
  "argmin lt as = (case as of [] \<Rightarrow> Inl ValueError | a # r \<Rightarrow> Inr (argmin_from lt r 1 a 0))"

datatype fl = Fin real | PosInf

fun fl_less :: "fl \<Rightarrow> fl \<Rightarrow> bool" where
  "fl_less (Fin a) (Fin b) = (a < b)"
| "fl_less (Fin a) PosInf = True"
| "fl_less PosInf b = False"

text \<open>Indexing with an integer array, \<^verbatim>\<open>a[ids]\<close>.\<close>

fun np_take :: "'a list \<Rightarrow> int list \<Rightarrow> error + 'a list" where
  "np_take a [] = Inr []"
| "np_take a (i # ids) =
     (case get a i of
        Inl e \<Rightarrow> Inl e
      | Inr v \<Rightarrow> (case np_take a ids of Inl e \<Rightarrow> Inl e | Inr vs \<Rightarrow> Inr (v # vs)))"

text \<open>
  \<^verbatim>\<open>np.argsort\<close>: the indices that sort the array in ascending order. numpy's default
  sort is not stable: among equal entries the program may return the indices in any
  order, where this function keeps the order of the indices. What is proved of the
  result below holds for every order of equal entries.
\<close>

definition argsort :: "real list \<Rightarrow> nat list" where
  "argsort vs = sort_key (\<lambda>i. vs ! i) [0..<length vs]"

text \<open>The slice \<^verbatim>\<open>a[-2:]\<close>.\<close>

definition last_two :: "'a list \<Rightarrow> 'a list" where
  "last_two a = drop (length a - 2) a"

text \<open>\<^verbatim>\<open>np.mod\<close> on integers: the sign of the divisor, and \<open>0\<close> for the divisor \<open>0\<close>.\<close>

definition np_mod_int :: "int \<Rightarrow> int \<Rightarrow> int" where
  "np_mod_int a b = (if b = 0 then 0 else a mod b)"

text \<open>
  The lines that two of the branches with a head and tail hint share: the nearest of
  the points \<open>xy\<close> to the hinted head and to the hinted tail; when both are the same
  point, the tail takes the nearest of the other points.
\<close>

definition nearest_two :: "point list \<Rightarrow> point \<times> point \<Rightarrow> error + (nat \<times> nat)" where
  "nearest_two xy head_tail_hint =
     (let dist_h = map (\<lambda>p. norm2 (psub p (fst head_tail_hint))) xy;
          dist_t = map (\<lambda>p. norm2 (psub p (snd head_tail_hint))) xy
      in case argmin (<) dist_h of
           Inl e \<Rightarrow> Inl e
         | Inr i_h \<Rightarrow>
            (case argmin (<) dist_t of
               Inl e \<Rightarrow> Inl e
             | Inr i_t \<Rightarrow>
                if i_h = i_t then
                  (case argmin fl_less ((map Fin dist_t)[i_t := PosInf]) of
                     Inl e \<Rightarrow> Inl e
                   | Inr i_t \<Rightarrow> Inr (i_h, i_t))
                else Inr (i_h, i_t)))"

text \<open>
  The head and tail resolution of \<^verbatim>\<open>shape_from_image\<close> (the lines under
  \<^verbatim>\<open># find head and tail\<close>): from the peaks of the curvature, the contour points
  \<open>x, y\<close>, the number of contour points, the hint and the status so far to the two
  indices \<^verbatim>\<open>imax\<close> and the new status. With one peak and a hint the source takes
  \<^verbatim>\<open>np.linalg.norm(..., axis = 1)\<close> of a one-dimensional array, which raises.
\<close>

definition head_tail_from_peaks ::
  "int list \<Rightarrow> real list \<Rightarrow> real list \<Rightarrow> real list \<Rightarrow> int \<Rightarrow> (point \<times> point) option \<Rightarrow> int
     \<Rightarrow> error + (int list \<times> int)" where
  "head_tail_from_peaks peak_ids peak_values x y ncontour head_tail_hint status =
     (if length peak_ids \<ge> 2 then
        (case head_tail_hint of
           Some hint \<Rightarrow>
            (case np_take x peak_ids of
               Inl e \<Rightarrow> Inl e
             | Inr xs \<Rightarrow>
                (case np_take y peak_ids of
                   Inl e \<Rightarrow> Inl e
                 | Inr ys \<Rightarrow>
                    (case nearest_two (zip xs ys) hint of
                       Inl e \<Rightarrow> Inl e
                     | Inr (i_h, i_t) \<Rightarrow>
                         Inr ([peak_ids ! i_h, peak_ids ! i_t], status + 10))))
         | None \<Rightarrow>
            (case np_take peak_ids (map int (last_two (argsort peak_values))) of
               Inl e \<Rightarrow> Inl e
             | Inr ids \<Rightarrow> Inr (sort ids, status + 20)))
      else if length peak_ids = 1 then
        (case head_tail_hint of
           Some hint \<Rightarrow>
            (case get x (peak_ids ! 0) of
               Inl e \<Rightarrow> Inl e
             | Inr px \<Rightarrow>
                (case get y (peak_ids ! 0) of
                   Inl e \<Rightarrow> Inl e
                 | Inr py \<Rightarrow> Inl AxisError))
         | None \<Rightarrow>
            Inr (sort [np_mod_int (peak_ids ! 0 + 0) ncontour,
                       np_mod_int (peak_ids ! 0 + ncontour div 2) ncontour],
                 status + 40))
      else
        (case head_tail_hint of
           Some hint \<Rightarrow>
            (case nearest_two (zip x y) hint of
               Inl e \<Rightarrow> Inl e
             | Inr (i_h, i_t) \<Rightarrow> Inr ([int i_h, int i_t], status + 50))
         | None \<Rightarrow> Inr ([0, ncontour div 2], status + 60)))"

subsection \<open>Matching the head and the tail to hint points (geometry.py)\<close>

text \<open>\<^verbatim>\<open>a.max()\<close> of a non-empty array.\<close>

fun array_max :: "real list \<Rightarrow> real" where
  "array_max [] = 0"
| "array_max (a # as) = fold max as a"

text \<open>
  The head and tail matching of \<^verbatim>\<open>distance_shape_to_contour_discrete\<close> (the block
  \<^verbatim>\<open>if match_head_tail is not None:\<close> after the two loops). The result is the four values
  \<^verbatim>\<open>distance_head, head_match, distance_tail, tail_match\<close> that the function returns
  after the distances of the side points; a distance \<^verbatim>\<open>np.nan\<close> is \<open>None\<close> and a match
  \<^verbatim>\<open>None\<close> is \<open>None\<close>. Without \<^verbatim>\<open>match_head_tail\<close> the four values are not returned.
\<close>

definition match_head_tail_endpoints ::
  "point list \<Rightarrow> point list option
     \<Rightarrow> error + (real option \<times> nat option \<times> real option \<times> nat option) option" where
  "match_head_tail_endpoints left match_head_tail =
     (case match_head_tail of
        None \<Rightarrow> Inr None
      | Some hints \<Rightarrow>
         if length hints > 0 then
           (case get left 0 of
              Inl e \<Rightarrow> Inl e
            | Inr head \<Rightarrow>
           (case get left (- 1) of
              Inl e \<Rightarrow> Inl e
            | Inr tail \<Rightarrow>
           (let dists_head = map (\<lambda>h. norm2 (psub head h)) hints;
                dists_tail = map (\<lambda>h. norm2 (psub tail h)) hints
            in case argmin (<) dists_head of
                 Inl e \<Rightarrow> Inl e
               | Inr head_match \<Rightarrow>
              (case argmin (<) dists_tail of
                 Inl e \<Rightarrow> Inl e
               | Inr tail_match \<Rightarrow>
              (let distance_head = dists_head ! head_match;
                   distance_tail = dists_tail ! tail_match
               in if head_match = tail_match then
                    (if dists_head ! head_match \<le> dists_tail ! tail_match then
                       (if length dists_tail \<le> 1 then
                          Inr (Some (Some distance_head, Some head_match, None, None))
                        else
                          (let dists_tail = dists_tail[tail_match := array_max dists_tail + 1]
                           in case argmin (<) dists_tail of
                                Inl e \<Rightarrow> Inl e
                              | Inr tail_match \<Rightarrow>
                                 (let distance_tail = dists_tail ! tail_match
                                  in Inr (Some (Some distance_head, Some head_match,
                                                Some distance_tail, Some tail_match)))))
                     else
                       (if length dists_head \<le> 1 then
                          Inr (Some (None, None, Some distance_tail, Some tail_match))
                        else
                          (let dists_head = dists_head[head_match := array_max dists_head + 1]
                           in case argmin (<) dists_head of
                                Inl e \<Rightarrow> Inl e
                              | Inr head_match \<Rightarrow>
                                 (let dists_head = dists_tail ! head_match
                                  in Inr (Some (Some distance_head, Some head_match,
                                                Some distance_tail, Some tail_match))))))
                  else Inr (Some (Some distance_head, Some head_match,
                                  Some distance_tail, Some tail_match)))))))
         else Inr (Some (None, None, None, None)))"

section \<open>Properties of WormModel\<close>

lemma flatten_length: "length (flatten ps) = 2 * length ps"
  by (induction ps rule: flatten.induct) simp_all

lemma pairs_flatten: "pairs (flatten ps) = ps"
  by (induction ps rule: flatten.induct) simp_all

lemma flatten_nth_even: "i < length ps \<Longrightarrow> flatten ps ! (2 * i) = fst (ps ! i)"
proof (induction ps arbitrary: i rule: flatten.induct)
  case 1
  then show ?case by simp
next
  case (2 x y ps)
  then show ?case by (cases i) simp_all
qed

lemma flatten_nth_odd: "i < length ps \<Longrightarrow> flatten ps ! (2 * i + 1) = snd (ps ! i)"
proof (induction ps arbitrary: i rule: flatten.induct)
  case 1
  then show ?case by simp
next
  case (2 x y ps)
  then show ?case by (cases i) simp_all
qed

lemma slice_append_left: "slice (xs @ ys) 0 (length xs) = xs"
  by (simp add: slice_def)

text \<open>
  For a model as the constructor builds it from arrays (float center line and width,
  float length and speed), \<^verbatim>\<open>set_parameter\<close> on the full parameter vector raises.
\<close>

lemma set_parameter_full_raises:
  assumes "self_npoints m = length c" and "self_nparameter m = 2 * self_npoints m"
    and "self_center m = FloatArray2 c" and "self_width m = FloatArray1 w"
    and "self_length m = Float l" and "self_speed m = Float s"
  shows "get_parameter m True = FloatArray1 (flatten c @ l # s # w)"
    and "set_parameter m (get_parameter m True) =
           (m\<lparr>self_length := Array1 (FloatArray1 [l]), self_speed := Array1 (FloatArray1 [s])\<rparr>,
            Some AttributeError)"
proof -
  let ?rest = "l # s # w"
  let ?p = "flatten c @ ?rest"
  show g: "get_parameter m True = FloatArray1 ?p"
    using assms(3-6) by (simp add: get_parameter_def)
  have len: "length (flatten c) = 2 * self_npoints m"
    using assms(1) by (simp add: flatten_length)
  have c: "reshape_array (slice_array (FloatArray1 ?p) 0 (2 * self_npoints m)) (self_npoints m)
             = Inr (self_center m)"
    using len slice_append_left [of "flatten c" ?rest] assms(1,3)
    by (simp add: reshape2_def pairs_flatten)
  have longer: "len1 (FloatArray1 ?p) > self_nparameter m"
    using len assms(2) by simp
  have s1: "slice_array (FloatArray1 ?p) (2 * self_npoints m) (2 * self_npoints m + 1)
              = FloatArray1 [l]"
    using len by (simp add: slice_def)
  have s2: "slice_array (FloatArray1 ?p) (2 * self_npoints m + 1) (2 * self_npoints m + 1 + 1)
              = FloatArray1 [s]"
    using len by (simp add: slice_def)
  show "set_parameter m (get_parameter m True) =
           (m\<lparr>self_length := Array1 (FloatArray1 [l]), self_speed := Array1 (FloatArray1 [s])\<rparr>,
            Some AttributeError)"
    unfolding g using c longer s1 s2
    by (simp add: set_parameter_def ndarray_nparameter_def Let_def)
qed

text \<open>
  C9. Constructing a WormModel from an explicit center line of \<open>N\<close> points and an
  explicit width profile either raises ValueError, exactly when the number of width
  samples differs from \<open>N\<close>, or succeeds with \<open>npoints = N\<close>, the center line and the
  width profile stored as given, as float arrays (the width is not resampled).
\<close>

theorem WormModel_init_width_check:
  "(case WormModel_init (Some (CenterArray c)) (Some (WidthArray w)) p l k of
      Inl e \<Rightarrow> e = ValueError \<and> length w \<noteq> length c
    | Inr m \<Rightarrow> length w = length c \<and> self_npoints m = length c
               \<and> self_center m = FloatArray2 c \<and> self_width m = FloatArray1 w)"
  by (simp add: WormModel_init_def Let_def)




text \<open>
  C2. \<^verbatim>\<open>get_parameter(full=True)\<close> returns the vector
  \<open>[x0, y0, ..., length, speed, w0, ...]\<close>, but \<^verbatim>\<open>set_parameter\<close> on that vector is not
  the identity: for the model built from two center points \<open>(0,0), (1,0)\<close> and widths
  \<open>1, 1\<close> the call raises AttributeError at \<^verbatim>\<open>self.width.nparameter\<close>, after it has
  replaced the float fields \<^verbatim>\<open>length\<close> and \<^verbatim>\<open>speed\<close> by one-entry arrays.
\<close>

theorem set_parameter_after_get_raises:
  "(case WormModel_init (Some (CenterArray [(0, 0), (1, 0)])) (Some (WidthArray [1, 1]))
          (75, 75) 50 21 of
      Inl e \<Rightarrow> False
    | Inr m \<Rightarrow>
        get_parameter m True = FloatArray1 [0, 0, 1, 0, 50, 0, 1, 1]
        \<and> snd (set_parameter m (get_parameter m True)) = Some AttributeError
        \<and> self_length m = Float 50
        \<and> self_length (fst (set_parameter m (get_parameter m True)))
            = Array1 (FloatArray1 [50])
        \<and> self_speed (fst (set_parameter m (get_parameter m True)))
            = Array1 (FloatArray1 [0]))"
  by (simp add: WormModel_init_def get_parameter_def set_parameter_def reshape2_def
      slice_def ndarray_nparameter_def Let_def)

section \<open>Properties of the geometry functions\<close>

lemma broadcast_same: "length a = length b \<Longrightarrow> broadcast f a b = Inr (map2 f a b)"
  by (simp add: broadcast_def)

lemma norm_axis0_length: "length (norm_axis0 a) = 2"
  by (simp add: norm_axis0_def)

text \<open>
  With the default arguments and two sides of the same length the width that
  \<^verbatim>\<open>center_from_sides_mean\<close> returns has two entries, one for each coordinate.
\<close>

lemma center_from_sides_mean_width_length:
  assumes "length left = length right"
  shows "\<exists>c w. center_from_sides_mean ext left right None None False True = Inr (c, Some w)
           \<and> length c = length left \<and> length w = 2"
  using assms
  by (simp add: center_from_sides_mean_def Let_def broadcast_same norm_axis0_length)

text \<open>
  C6. For two sides of three points each, \<^verbatim>\<open>center_from_sides_mean\<close> with
  \<^verbatim>\<open>with_width=True\<close> returns a center line of three points and a width of two entries,
  the norms of the two coordinate columns of \<open>left - right\<close> (here \<open>0\<close> and \<open>3\<close>); the
  distances between the same-indexed points are \<open>2, 2, 1\<close>.
\<close>

theorem center_from_sides_mean_width_axis0:
  "center_from_sides_mean ext [(0, 0), (1, 0), (2, 0)] [(0, 2), (1, 2), (2, 1)]
       None None False True
     = Inr ([(0, 1), (1, 1), (2, 1 / 2)], Some [0, 3])
   \<and> map2 (\<lambda>p q. norm2 (psub p q)) [(0, 0), (1, 0), (2, 0)] [(0, 2), (1, 2), (2, 1)]
     = [2, 2, 1]"
proof -
  have s9: "sqrt 9 = 3"
    using real_sqrt_abs [of 3] by simp
  show ?thesis
    by (simp add: center_from_sides_mean_def Let_def broadcast_def norm_axis0_def
        padd_def psub_def norm2_def s9)
qed

theorem center_from_sides_mean_width_axis0_witness:
  "\<exists>c w. center_from_sides_mean no_resampling
            [(0, 0), (1, 0), (2, 0)] [(0, 2), (1, 2), (2, 1)] None None False True
          = Inr (c, Some w)
        \<and> length c = 3 \<and> length w = 2"
  using center_from_sides_mean_width_axis0 [of no_resampling]
  by simp

text \<open>
  C3. With supplied normals, \<^verbatim>\<open>shape_from_center_discrete\<close> returns
  \<open>left[i] = center[i] + 0.5 * w[i] * normal[i]\<close> and
  \<open>right[i] = center[i] - 0.5 * w[i] * normal[i]\<close> for every index \<open>i\<close>, where \<open>w\<close> is
  the width itself when it has as many entries as the center line has points, and the
  width resampled to that number of points otherwise. The center line, \<open>w\<close> and the
  normals all have \<open>N\<close> entries.
\<close>

theorem shape_from_center_discrete_offsets:
  assumes "w = (if length width \<noteq> length center
                then resample_curve ext width (int (length center)) None else width)"
    and "length w = length center" and "length normals = length center"
  shows "\<exists>left right.
           shape_from_center_discrete ext center width (Some normals) with_normals
             = Inr (left, right, if with_normals then Some normals else None)
           \<and> length left = length center \<and> length right = length center
           \<and> (\<forall>i < length center.
                 left ! i = (fst (center ! i) + 0.5 * w ! i * fst (normals ! i),
                             snd (center ! i) + 0.5 * w ! i * snd (normals ! i))
               \<and> right ! i = (fst (center ! i) - 0.5 * w ! i * fst (normals ! i),
                              snd (center ! i) - 0.5 * w ! i * snd (normals ! i)))"
proof -
  let ?off = "map2 pmul (map (pscale 0.5) (map (\<lambda>v. (v, v)) w)) normals"
  have off: "broadcast pmul (map (pscale 0.5) (map (\<lambda>v. (v, v)) w)) normals = Inr ?off"
    using assms(2,3) by (simp add: broadcast_same)
  have len_off: "length ?off = length center"
    using assms(2,3) by simp
  have l: "broadcast padd center ?off = Inr (map2 padd center ?off)"
    and r: "broadcast psub center ?off = Inr (map2 psub center ?off)"
    using len_off by (simp_all add: broadcast_same)
  have res: "shape_from_center_discrete ext center width (Some normals) with_normals
      = Inr (map2 padd center ?off, map2 psub center ?off,
             if with_normals then Some normals else None)"
    unfolding shape_from_center_discrete_def Let_def assms(1) [symmetric]
    using off l r by simp
  have nth_off: "?off ! i = (0.5 * w ! i * fst (normals ! i), 0.5 * w ! i * snd (normals ! i))"
    if "i < length center" for i
    using that assms(2,3) by (simp add: pmul_def pscale_def)
  have "map2 padd center ?off ! i
          = (fst (center ! i) + 0.5 * w ! i * fst (normals ! i),
             snd (center ! i) + 0.5 * w ! i * snd (normals ! i))
        \<and> map2 psub center ?off ! i
          = (fst (center ! i) - 0.5 * w ! i * fst (normals ! i),
             snd (center ! i) - 0.5 * w ! i * snd (normals ! i))"
    if "i < length center" for i
    using that len_off nth_off [OF that] by (simp add: padd_def psub_def)
  then show ?thesis
    using res len_off by auto
qed

theorem shape_from_center_discrete_offsets_witness:
  "\<exists>left right.
     shape_from_center_discrete no_resampling
        [(0, 0), (1, 0)] [2, 4] (Some [(0, 1), (0, 1)]) False
       = Inr (left, right, None)
     \<and> left ! 1 = (1, 2) \<and> right ! 1 = (1, - 2)"
  using shape_from_center_discrete_offsets
    [of "[2, 4]" "[2, 4]" "[(0, 0), (1, 0)]" no_resampling "[(0, 1), (0, 1)]" False]
  by auto

section \<open>Properties of the shape detection\<close>

lemma shape_from_image_contours_none:
  assumes "detect_contour level = []"
    and "case threshold_reduce of None \<Rightarrow> True | Some r \<Rightarrow> detect_contour (r * level) = []"
  shows "shape_from_image_contours detect_contour level threshold_reduce npoints
           = Inl (if npoints < 0 then ValueError else TypeError)"
  using assms
  by (cases threshold_reduce)
     (simp_all add: shape_from_image_contours_def np_zeros2_def np_zeros1_def)

text \<open>
  C4. When the contour detection finds no contour at the initial threshold and none at
  the reduced one, \<^verbatim>\<open>shape_from_image\<close> (with the default \<^verbatim>\<open>threshold_reduce = 0.9\<close>
  and \<^verbatim>\<open>npoints = 21\<close>) does not return status \<open>-1\<close> with zero-filled arrays: building
  the tuple to return raises TypeError, since the width placeholder
  \<^verbatim>\<open>np.zeros(npoints)\<close> is passed as the data type of the third \<^verbatim>\<open>np.zeros((npoints,2))\<close>.
\<close>

theorem shape_from_image_no_contour_raises:
  "shape_from_image_contours (\<lambda>level. ([] :: point list list)) level (Some 0.9) 21
     = Inl TypeError"
  by (simp add: shape_from_image_contours_def np_zeros2_def np_zeros1_def)

lemma argsort_length: "length (argsort vs) = length vs"
  by (simp add: argsort_def)

lemma argsort_set: "set (argsort vs) = {0..<length vs}"
  by (simp add: argsort_def)

lemma argsort_distinct: "distinct (argsort vs)"
  by (simp add: argsort_def)

lemma argsort_sorted: "sorted (map (\<lambda>i. vs ! i) (argsort vs))"
  by (simp add: argsort_def)

lemma last_two_nth:
  assumes "2 \<le> length a"
  shows "last_two a = [a ! (length a - 2), a ! (length a - 1)]"
proof -
  let ?n = "length a"
  have "drop (?n - 2) a = a ! (?n - 2) # drop (Suc (?n - 2)) a"
    using assms by (intro Cons_nth_drop_Suc [symmetric]) simp
  moreover have "Suc (?n - 2) = ?n - 1"
    using assms by simp
  moreover have "drop (?n - 1) a = a ! (?n - 1) # drop (Suc (?n - 1)) a"
    using assms by (intro Cons_nth_drop_Suc [symmetric]) simp
  ultimately show ?thesis
    using assms by (simp add: last_two_def)
qed

lemma np_take_two:
  assumes "i < length a" and "j < length a"
  shows "np_take a [int i, int j] = Inr [a ! i, a ! j]"
  using assms by (simp add: get_def)

lemma argsort_top_two:
  assumes "2 \<le> length vs"
  defines "i \<equiv> argsort vs ! (length vs - 2)" and "j \<equiv> argsort vs ! (length vs - 1)"
  shows "i < length vs" and "j < length vs" and "i \<noteq> j"
    and "\<forall>k < length vs. k \<noteq> i \<and> k \<noteq> j \<longrightarrow> vs ! k \<le> vs ! i \<and> vs ! k \<le> vs ! j"
    and "vs ! i \<le> vs ! j"
proof -
  let ?n = "length vs" and ?as = "argsort vs"
  have len: "length ?as = ?n" by (rule argsort_length)
  have "i \<in> set ?as" and "j \<in> set ?as"
    using assms(1) len by (simp_all add: i_def j_def)
  then show "i < ?n" and "j < ?n"
    by (simp_all add: argsort_set)
  show "i \<noteq> j"
    using argsort_distinct [of vs] assms(1) len
    by (simp add: i_def j_def distinct_conv_nth)
  have mono: "vs ! (?as ! a) \<le> vs ! (?as ! b)" if "a \<le> b" and "b < ?n" for a b
    using sorted_nth_mono [OF argsort_sorted [of vs], of a b] that len by simp
  show ij: "vs ! i \<le> vs ! j"
    using mono [of "?n - 2" "?n - 1"] assms(1) by (simp add: i_def j_def)
  show "\<forall>k < ?n. k \<noteq> i \<and> k \<noteq> j \<longrightarrow> vs ! k \<le> vs ! i \<and> vs ! k \<le> vs ! j"
  proof (intro allI impI)
    fix k assume k: "k < ?n" and ne: "k \<noteq> i \<and> k \<noteq> j"
    from k have "k \<in> set ?as" by (simp add: argsort_set)
    then obtain a where a: "a < ?n" "?as ! a = k"
      using len by (auto simp: in_set_conv_nth)
    with ne have "a \<noteq> ?n - 2" and "a \<noteq> ?n - 1"
      by (auto simp: i_def j_def)
    with a(1) have "a \<le> ?n - 2" by simp
    then have "vs ! k \<le> vs ! i"
      using mono [of a "?n - 2"] a(2) assms(1) by (simp add: i_def)
    with ij show "vs ! k \<le> vs ! i \<and> vs ! k \<le> vs ! j" by simp
  qed
qed

text \<open>
  C5. Without a head and tail hint the resolution is: with two or more peaks, two
  different peaks whose values are at least the value of every other peak, in ascending
  order of their contour indices, and status plus 20; with exactly one peak, that peak
  and the index \<open>ncontour div 2\<close> further, both modulo \<open>ncontour\<close>, in ascending order,
  and status plus 40; with no peak the indices \<open>0\<close> and \<open>ncontour div 2\<close> and status
  plus 60. The height of a peak is the value that the peak detection returns for it.
\<close>

theorem head_tail_from_peaks_without_hint:
  assumes "length peak_values = length peak_ids" and "0 < ncontour"
  shows "(2 \<le> length peak_ids \<longrightarrow>
            (\<exists>i j. i < length peak_ids \<and> j < length peak_ids \<and> i \<noteq> j
               \<and> (\<forall>k < length peak_ids. k \<noteq> i \<and> k \<noteq> j \<longrightarrow>
                      peak_values ! k \<le> peak_values ! i \<and> peak_values ! k \<le> peak_values ! j)
               \<and> head_tail_from_peaks peak_ids peak_values x y ncontour None status
                   = Inr (sort [peak_ids ! i, peak_ids ! j], status + 20)))
       \<and> (length peak_ids = 1 \<longrightarrow>
            head_tail_from_peaks peak_ids peak_values x y ncontour None status
              = Inr (sort [peak_ids ! 0 mod ncontour,
                           (peak_ids ! 0 + ncontour div 2) mod ncontour], status + 40))
       \<and> (length peak_ids = 0 \<longrightarrow>
            head_tail_from_peaks peak_ids peak_values x y ncontour None status
              = Inr ([0, ncontour div 2], status + 60))"
proof (intro conjI impI)
  assume two: "2 \<le> length peak_ids"
  let ?i = "argsort peak_values ! (length peak_values - 2)"
  let ?j = "argsort peak_values ! (length peak_values - 1)"
  have two': "2 \<le> length peak_values"
    using two assms(1) by simp
  note top = argsort_top_two [OF two']
  have lt: "last_two (argsort peak_values) = [?i, ?j]"
    using last_two_nth [of "argsort peak_values"] two' by (simp add: argsort_length)
  have "np_take peak_ids (map int (last_two (argsort peak_values)))
          = Inr [peak_ids ! ?i, peak_ids ! ?j]"
    unfolding lt using np_take_two [of ?i peak_ids ?j] top(1,2) assms(1) by simp
  then have "head_tail_from_peaks peak_ids peak_values x y ncontour None status
               = Inr (sort [peak_ids ! ?i, peak_ids ! ?j], status + 20)"
    using two by (simp add: head_tail_from_peaks_def)
  with top assms(1)
  show "\<exists>i j. i < length peak_ids \<and> j < length peak_ids \<and> i \<noteq> j
          \<and> (\<forall>k < length peak_ids. k \<noteq> i \<and> k \<noteq> j \<longrightarrow>
                 peak_values ! k \<le> peak_values ! i \<and> peak_values ! k \<le> peak_values ! j)
          \<and> head_tail_from_peaks peak_ids peak_values x y ncontour None status
              = Inr (sort [peak_ids ! i, peak_ids ! j], status + 20)"
    by (intro exI [of _ ?i] exI [of _ ?j]) simp
next
  assume "length peak_ids = 1"
  then show "head_tail_from_peaks peak_ids peak_values x y ncontour None status
               = Inr (sort [peak_ids ! 0 mod ncontour,
                            (peak_ids ! 0 + ncontour div 2) mod ncontour], status + 40)"
    using assms(2) by (simp add: head_tail_from_peaks_def np_mod_int_def)
next
  assume "length peak_ids = 0"
  then show "head_tail_from_peaks peak_ids peak_values x y ncontour None status
               = Inr ([0, ncontour div 2], status + 60)"
    by (simp add: head_tail_from_peaks_def)
qed

theorem head_tail_from_peaks_without_hint_witness:
  "head_tail_from_peaks [5, 17, 40] [0.5, 2, 1] [] [] 100 None 1 = Inr ([17, 40], 21)
   \<and> head_tail_from_peaks [70] [0.5] [] [] 100 None 1 = Inr ([20, 70], 41)
   \<and> head_tail_from_peaks [] [] [] [] 100 None 1 = Inr ([0, 50], 61)"
  using head_tail_from_peaks_without_hint [of "[0.5, 2, 1]" "[5, 17, 40]" 100 "[]" "[]" 1]
    head_tail_from_peaks_without_hint [of "[0.5]" "[70]" 100 "[]" "[]" 1]
    head_tail_from_peaks_without_hint [of "[]" "[]" 100 "[]" "[]" 1]
  by (simp add: head_tail_from_peaks_def argsort_def last_two_def get_def upt_rec)

section \<open>Properties of the head and tail matching\<close>

lemma norm2_vertical: "norm2 (0, b) = \<bar>b\<bar>"
  by (simp add: norm2_def)

text \<open>
  The tail branch: head \<open>(0, 1)\<close> and tail \<open>(0, 3)\<close> are both nearest to the hint point
  \<open>(0, 0)\<close>, the tail is farther and is reassigned to the hint point \<open>(0, 10)\<close> together
  with its distance \<open>7\<close>.
\<close>

lemma match_tail_reassigned:
  "match_head_tail_endpoints [(0, 1), (0, 3)] (Some [(0, 0), (0, 10)])
     = Inr (Some (Some 1, Some 0, Some 7, Some 1))"
  by (simp add: match_head_tail_endpoints_def get_def argmin_def psub_def norm2_vertical
      Let_def)

text \<open>
  C7. The head branch does not do the same. Head \<open>(0, 3)\<close> and tail \<open>(0, 1)\<close> are both
  nearest to the hint point \<open>(0, 0)\<close> and the head is farther: it is reassigned to the
  hint point \<open>(0, 10)\<close> of index \<open>1\<close>, at distance \<open>7\<close>, but the distance returned for
  the head is \<open>3\<close>, its distance to the hint point it no longer matches.
\<close>

theorem match_head_reassigned_stale_distance:
  "match_head_tail_endpoints [(0, 3), (0, 1)] (Some [(0, 0), (0, 10)])
     = Inr (Some (Some 3, Some 1, Some 1, Some 0))
   \<and> norm2 (psub (0, 3) ([(0, 0), (0, 10)] ! 1)) = 7"
  by (simp add: match_head_tail_endpoints_def get_def argmin_def psub_def norm2_vertical
      Let_def)

section \<open>Properties of the bending angles\<close>

text \<open>
  On the reals the wrapped angle lies in \<open>[-\<pi>, \<pi>)\<close> and differs from the angle by a
  multiple of \<open>2\<pi>\<close>.
\<close>

lemma np_mod_range:
  assumes "0 < b"
  shows "0 \<le> np_mod a b" and "np_mod a b < b"
proof -
  have "of_int \<lfloor>a / b\<rfloor> * b \<le> a"
    using assms by (rule floor_divide_lower)
  then show "0 \<le> np_mod a b"
    by (simp add: np_mod_def mult.commute)
  have "a < (of_int \<lfloor>a / b\<rfloor> + 1) * b"
    using assms by (rule floor_divide_upper)
  then show "np_mod a b < b"
    by (simp add: np_mod_def algebra_simps)
qed

lemma wrap_angle_range: "- pi \<le> wrap_angle t" "wrap_angle t < pi"
  using np_mod_range [of "2 * pi" "t + pi"] by (simp_all add: wrap_angle_def)

lemma wrap_angle_shift: "\<exists>k::int. wrap_angle t = t - 2 * pi * of_int k"
  by (rule exI [of _ "\<lfloor>(t + pi) / (2 * pi)\<rfloor>"]) (simp add: wrap_angle_def np_mod_def)

lemma wrap_angle_id:
  assumes "- pi \<le> t" and "t < pi"
  shows "wrap_angle t = t"
proof -
  have "0 \<le> (t + pi) / (2 * pi)" and "(t + pi) / (2 * pi) < 1"
    using assms by simp_all
  then have "\<lfloor>(t + pi) / (2 * pi)\<rfloor> = 0"
    by linarith
  then show ?thesis
    by (simp add: wrap_angle_def np_mod_def)
qed

lemma wrap_angle_pi: "wrap_angle pi = - pi"
proof -
  have "(pi + pi) / (2 * pi) = 1"
    by simp
  then have "\<lfloor>(pi + pi) / (2 * pi)\<rfloor> = 1"
    by simp
  then show ?thesis
    by (simp add: wrap_angle_def np_mod_def)
qed

text \<open>The segments of a center line, and the middle index \<^verbatim>\<open>(nsamples-1)//2\<close>.\<close>

lemma diff2_length: "length (diff2 ps) = length ps - 1"
  by (induction ps rule: diff2.induct) simp_all

lemma diff2_nth:
  "Suc i < length ps \<Longrightarrow> diff2 ps ! i = psub (ps ! Suc i) (ps ! i)"
proof (induction ps arbitrary: i rule: diff2.induct)
  case (1 p q ps)
  then show ?case
    by (cases i) (simp_all add: psub_def)
qed simp_all

lemma get_nat: "i < length a \<Longrightarrow> get a (int i) = Inr (a ! i)"
  by (simp add: get_def)

lemma middle_index:
  assumes "1 \<le> n"
  shows "(int n - 1) div 2 = int ((n - 1) div 2)"
proof -
  have "int ((n - 1) div 2) = int (n - 1) div int 2"
    by (rule zdiv_int)
  also have "int (n - 1) = int n - 1"
    using assms by simp
  finally show ?thesis
    by simp
qed

text \<open>
  With the default arguments nothing is resampled, and for at least two points both
  index reads succeed: the result in closed form.
\<close>

lemma theta_from_center_discrete_default:
  assumes "2 \<le> length center"
  shows "theta_from_center_discrete ext center None None False smooth =
     Inr (map (\<lambda>t. t * real (length center - 1))
            (map wrap_angle
               (map2 (\<lambda>a b. arctan2 (fst a) (snd a) - arctan2 (fst b) (snd b))
                  (butlast (diff2 center)) (tl (diff2 center)))),
          wrap_angle (arctan2 1 0
            - arctan2 (fst (diff2 center ! ((length center - 1) div 2)))
                      (snd (diff2 center ! ((length center - 1) div 2)))),
          center ! ((length center - 1) div 2),
          sum_list (map norm2 (diff2 center)))"
proof -
  let ?n = "length center" and ?k = "(length center - 1) div 2"
  have n2: "(int ?n - 1) div 2 = int ?k"
    using assms by (intro middle_index) simp
  have k: "?k < length (diff2 center)" "?k < ?n"
    using assms by (simp_all add: diff2_length)
  have sc: "real_of_int (int ?n - 1) = real (?n - 1)"
    using assms by simp
  show ?thesis
    unfolding theta_from_center_discrete_def Let_def
    using k by (simp add: n2 get_nat sc)
qed

text \<open>A center line of fewer than two points has no middle segment: the call raises.\<close>

lemma theta_from_center_discrete_too_short:
  assumes "length center < 2"
  shows "theta_from_center_discrete ext center None None False smooth = Inl IndexError"
proof (cases center)
  case Nil
  then show ?thesis
    by (simp add: theta_from_center_discrete_def get_def)
next
  case (Cons p ps)
  with assms have "ps = []"
    by simp
  with Cons show ?thesis
    by (simp add: theta_from_center_discrete_def get_def)
qed

lemma wrap_angle_three_halves: "wrap_angle (- (3 * pi / 2)) = pi / 2"
proof -
  have "(- (3 * pi / 2) + pi) / (2 * pi) = - (1 / 4)"
    by simp
  then have "\<lfloor>(- (3 * pi / 2) + pi) / (2 * pi)\<rfloor> = - 1"
    by simp
  then show ?thesis
    by (simp add: wrap_angle_def np_mod_def)
qed

text \<open>
  C8. For a center line of \<open>N \<ge> 2\<close> points and the default arguments,
  \<^verbatim>\<open>theta_from_center_discrete\<close> returns \<open>N - 2\<close> angles, each of them \<open>N - 1\<close> times a
  wrapped turning angle and so in \<open>[-(N-1)\<pi>, (N-1)\<pi>]\<close>, and an orientation in
  \<open>[-\<pi>, \<pi>]\<close>. The lower ends are reached on the reals; the upper ends are reached by
  the program at an exact reversal, where rounding puts the angle on the other side of
  the wrap.
\<close>

theorem theta_from_center_discrete_ranges:
  assumes "2 \<le> length center"
  shows "\<exists>theta orientation xy len.
           theta_from_center_discrete ext center None None False smooth
             = Inr (theta, orientation, xy, len)
           \<and> length theta = length center - 2
           \<and> (\<forall>t \<in> set theta. - (real (length center - 1) * pi) \<le> t
                             \<and> t \<le> real (length center - 1) * pi)
           \<and> - pi \<le> orientation \<and> orientation \<le> pi"
proof -
  define c where "c = real (length center - 1)"
  have c: "0 < c"
    using assms by (simp add: c_def)
  have closed: "- pi \<le> wrap_angle t \<and> wrap_angle t \<le> pi" for t
    using wrap_angle_range [of t] by simp
  have scaled: "- (c * pi) \<le> wrap_angle t * c \<and> wrap_angle t * c \<le> c * pi" for t
  proof -
    have "- pi * c \<le> wrap_angle t * c"
      using closed [of t] c by (intro mult_right_mono) simp_all
    moreover have "wrap_angle t * c \<le> pi * c"
      using closed [of t] c by (intro mult_right_mono) simp_all
    ultimately show ?thesis
      by (simp add: mult.commute)
  qed
  show ?thesis
    unfolding theta_from_center_discrete_default [OF assms] c_def [symmetric]
    using scaled closed by (auto simp: diff2_length)
qed

theorem theta_from_center_discrete_ranges_witness:
  "\<exists>theta orientation xy len.
     theta_from_center_discrete no_resampling
        [(0, 0), (1, 0), (1, 1)] None None False 0
       = Inr (theta, orientation, xy, len)
     \<and> length theta = 1 \<and> - pi \<le> orientation \<and> orientation \<le> pi"
  using theta_from_center_discrete_ranges [of "[(0, 0), (1, 0), (1, 1)]" no_resampling 0]
  by auto

text \<open>
  The interval \<open>(-\<pi>, \<pi>]\<close> of the specification does not hold. On the square
  \<open>(1,0), (1,1), (0,1), (0,0)\<close> both angles are \<open>3\<pi>/2\<close>, above \<open>\<pi>\<close>, and the
  orientation of the middle segment, which points in the negative \<open>x\<close> direction, is
  \<open>-\<pi>\<close>, the excluded lower end.
\<close>

theorem theta_from_center_discrete_out_of_range:
  "theta_from_center_discrete no_resampling
      [(1, 0), (1, 1), (0, 1), (0, 0)] None None False 0
     = Inr ([3 * pi / 2, 3 * pi / 2], - pi, (1, 1), 3)
   \<and> \<not> (3 * pi / 2 \<le> pi) \<and> \<not> (- pi < - pi)"
proof -
  have a: "wrap_angle (pi / 2) = pi / 2"
    by (rule wrap_angle_id) simp_all
  show ?thesis
    by (simp add: theta_from_center_discrete_default arctan2_def a wrap_angle_three_halves
        wrap_angle_pi norm2_def)
qed

section \<open>Round trip between center line and bending angles\<close>

text \<open>The entries of a running sum.\<close>

lemma cumsum_from_length: "length (cumsum_from a as) = length as"
  by (induction as arbitrary: a) simp_all

lemma cumsum_from_nth:
  "j < length as \<Longrightarrow> cumsum_from a as ! j = a + sum_list (take (Suc j) as)"
proof (induction as arbitrary: a j)
  case Nil
  then show ?case by simp
next
  case (Cons b as)
  then show ?case
    by (cases j) (simp_all add: add.assoc)
qed

lemma cumsum_zero_nth:
  "j \<le> length as \<Longrightarrow> cumsum (0 # as) ! j = sum_list (take j as)"
  using cumsum_from_nth [of j "0 # as" 0] by (simp add: cumsum_def)

text \<open>
  The reconstruction with the default arguments in closed form: \<open>A0\<close> are the
  integrated angles, \<open>A\<close> the angles anchored at the middle segment, \<open>P\<close> the scaled
  running sums of their cosines and sines, and \<open>k\<close> is the middle index.
\<close>

lemma center_from_theta_discrete_default:
  fixes theta :: "real list" and orientation len :: real
  defines "k \<equiv> (length theta + 1) div 2"
  defines "delta \<equiv> 1 / (real (length theta) + 1)"
  defines "A0 \<equiv> map (\<lambda>t. t * delta) (cumsum (0 # theta))"
  defines "A \<equiv> map (\<lambda>t. t + (orientation - A0 ! k)) A0"
  defines "P \<equiv> map (pscale (len * delta))
                 ((0, 0) # zip (cumsum (map cos A)) (cumsum (map sin A)))"
  shows "center_from_theta_discrete ext theta orientation xy len None None False smooth False
           = Inr (map (\<lambda>p. padd p (psub xy (P ! k))) P, None)"
proof -
  have n2: "(int (length theta) + 2 - 1) div 2 = int k"
    using middle_index [of "length theta + 2"] by (simp add: k_def)
  have d: "1.0 / real_of_int (int (length theta) + 2 - 1) = delta"
    by (simp add: delta_def add.commute)
  have kA: "k < length A0"
    by (simp add: A0_def cumsum_def cumsum_from_length k_def)
  have integ: "integrate_theta ext theta orientation (int (length theta) + 2) False
                 = Inr (A, delta)"
    unfolding integrate_theta_def Let_def n2 d
    using kA by (simp add: get_nat A_def A0_def)
  have kP: "k < length P"
    by (simp add: P_def A_def A0_def cumsum_def cumsum_from_length k_def)
  have n2': "(1 + int (length theta)) div 2 = int k"
    using n2 by (simp add: add.commute)
  have c2: "get P (int k) = Inr (P ! k)"
    using kP by (rule get_nat)
  show ?thesis
    unfolding center_from_theta_discrete_def Let_def
    using integ c2 by (simp add: n2' P_def)
qed

text \<open>
  \<^verbatim>\<open>np.arctan2(a, b)\<close> is an angle whose sine is \<open>a\<close> and whose cosine is \<open>b\<close>, both
  divided by the length of \<open>(a, b)\<close>; the source passes the \<open>x\<close> difference of a segment
  first, so the angle is measured from the \<open>y\<close> axis.
\<close>

lemma sqrt_one_plus_ratio:
  assumes "b \<noteq> 0"
  shows "sqrt (1 + (a / b)\<^sup>2) = sqrt (a\<^sup>2 + b\<^sup>2) / \<bar>b\<bar>"
proof -
  have "1 + (a / b)\<^sup>2 = (a\<^sup>2 + b\<^sup>2) / b\<^sup>2"
    using assms by (simp add: field_simps power2_eq_square)
  then show ?thesis
    by (simp add: real_sqrt_divide)
qed

lemma sin_cos_arctan_ratio:
  assumes "b \<noteq> 0"
  shows "sin (arctan (a / b)) = (a / b) * \<bar>b\<bar> / sqrt (a\<^sup>2 + b\<^sup>2)"
    and "cos (arctan (a / b)) = \<bar>b\<bar> / sqrt (a\<^sup>2 + b\<^sup>2)"
  using assms by (simp_all add: sin_arctan cos_arctan sqrt_one_plus_ratio)

lemma arctan2_sin_cos:
  assumes "a \<noteq> 0 \<or> b \<noteq> 0"
  shows "sin (arctan2 a b) = a / sqrt (a\<^sup>2 + b\<^sup>2)"
    and "cos (arctan2 a b) = b / sqrt (a\<^sup>2 + b\<^sup>2)"
proof -
  consider (pos) "0 < b" | (neg) "b < 0" | (up) "b = 0" "0 < a" | (down) "b = 0" "a < 0"
    using assms by linarith
  then have "sin (arctan2 a b) = a / sqrt (a\<^sup>2 + b\<^sup>2)
           \<and> cos (arctan2 a b) = b / sqrt (a\<^sup>2 + b\<^sup>2)"
  proof cases
    case pos
    then show ?thesis
      using sin_cos_arctan_ratio [of b a] by (simp add: arctan2_def)
  next
    case neg
    then have "sin (arctan (a / b)) = - (a / sqrt (a\<^sup>2 + b\<^sup>2))"
      and "cos (arctan (a / b)) = - (b / sqrt (a\<^sup>2 + b\<^sup>2))"
      using sin_cos_arctan_ratio [of b a] by simp_all
    with neg show ?thesis
      by (simp add: arctan2_def sin_diff cos_diff)
  next
    case up
    then show ?thesis
      by (simp add: arctan2_def)
  next
    case down
    then show ?thesis
      by (simp add: arctan2_def)
  qed
  then show "sin (arctan2 a b) = a / sqrt (a\<^sup>2 + b\<^sup>2)"
    and "cos (arctan2 a b) = b / sqrt (a\<^sup>2 + b\<^sup>2)"
    by simp_all
qed

text \<open>Sums of wrapped angle differences telescope up to a multiple of \<open>2\<pi>\<close>.\<close>

lemma sin_cos_shift:
  fixes k :: int
  shows "sin (t + 2 * pi * of_int k) = sin t" and "cos (t + 2 * pi * of_int k) = cos t"
  using sin_cos_eq_iff [of "t + 2 * pi * of_int k" t] by auto

lemma sum_list_constant:
  assumes "\<forall>a \<in> set as. f a = (c::real)"
  shows "sum_list (map f as) = real (length as) * c"
  using assms by (induction as) (simp_all add: algebra_simps)

lemma telescope:
  fixes T :: "real list" and f :: "nat \<Rightarrow> real"
  assumes "\<forall>i < length T. \<exists>k::int. T ! i = f i - f (Suc i) + 2 * pi * of_int k"
    and "j \<le> length T"
  shows "\<exists>k::int. sum_list (take j T) = f 0 - f j + 2 * pi * of_int k"
  using assms(2)
proof (induction j)
  case 0
  show ?case
    by (rule exI [of _ 0]) simp
next
  case (Suc j)
  then obtain k :: int where k: "sum_list (take j T) = f 0 - f j + 2 * pi * of_int k"
    by auto
  from Suc.prems assms(1) obtain l :: int
    where l: "T ! j = f j - f (Suc j) + 2 * pi * of_int l"
    by (auto simp: Suc_le_eq)
  have "take (Suc j) T = take j T @ [T ! j]"
    using Suc.prems by (simp add: take_Suc_conv_app_nth)
  then have "sum_list (take (Suc j) T) = f 0 - f (Suc j) + 2 * pi * of_int (k + l)"
    using k l by (simp add: algebra_simps)
  then show ?case
    by blast
qed

text \<open>
  The running sums of the segments, each divided by the common segment length \<open>r\<close> and
  multiplied by it again, are the points of the center line relative to its first point.
\<close>

lemma positions_from_steps:
  assumes "r \<noteq> 0"
  shows "map (pscale r)
           (zip (cumsum_from a (map (\<lambda>d. fst d / r) (diff2 (p # ps))))
                (cumsum_from b (map (\<lambda>d. snd d / r) (diff2 (p # ps)))))
         = map (\<lambda>q. (r * a + (fst q - fst p), r * b + (snd q - snd p))) ps"
proof (induction ps arbitrary: p a b)
  case Nil
  show ?case by simp
next
  case (Cons q qs)
  have "r * (a + (fst q - fst p) / r) = r * a + (fst q - fst p)"
    and "r * (b + (snd q - snd p) / r) = r * b + (snd q - snd p)"
    using assms by (simp_all add: distrib_left)
  then show ?case
    using Cons.IH [of "a + (fst q - fst p) / r" q "b + (snd q - snd p) / r"]
    by (simp add: pscale_def algebra_simps)
qed

lemma center_from_unit_steps:
  assumes "r \<noteq> 0" and "C \<noteq> []"
  shows "map (pscale r)
           ((0, 0) # zip (cumsum (map (\<lambda>d. fst d / r) (diff2 C)))
                         (cumsum (map (\<lambda>d. snd d / r) (diff2 C))))
         = map (\<lambda>q. psub q (C ! 0)) C"
proof -
  obtain p ps where C: "C = p # ps"
    using assms(2) by (cases C) auto
  show ?thesis
    unfolding C cumsum_def
    using positions_from_steps [OF assms(1), of 0 p ps 0]
    by (simp add: pscale_def psub_def)
qed

lemma turning_angles_nth:
  assumes "Suc i < length v"
  shows "map wrap_angle
           (map2 (\<lambda>a b. arctan2 (fst a) (snd a) - arctan2 (fst b) (snd b))
              (butlast v) (tl v)) ! i
         = wrap_angle (arctan2 (fst (v ! i)) (snd (v ! i))
                       - arctan2 (fst (v ! Suc i)) (snd (v ! Suc i)))"
  using assms by (simp add: nth_butlast nth_tl)

text \<open>
  For segments of equal length \<open>r > 0\<close> the cosines and sines of the reconstructed
  angles are the coordinates of the segments divided by \<open>r\<close>.
\<close>

lemma norm2_positive:
  assumes "0 < norm2 d"
  shows "fst d \<noteq> 0 \<or> snd d \<noteq> 0"
proof (rule ccontr)
  assume "\<not> (fst d \<noteq> 0 \<or> snd d \<noteq> 0)"
  then have "norm2 d = 0"
    by (simp add: norm2_def)
  with assms show False
    by simp
qed

lemma segment_angles:
  fixes v :: "point list" and orientation r :: real
  defines "phi \<equiv> \<lambda>i. arctan2 (fst (v ! i)) (snd (v ! i))"
  defines "T \<equiv> map wrap_angle
                 (map2 (\<lambda>a b. arctan2 (fst a) (snd a) - arctan2 (fst b) (snd b))
                    (butlast v) (tl v))"
  defines "theta \<equiv> map (\<lambda>t. t * real (length v)) T"
  defines "delta \<equiv> 1 / (real (length theta) + 1)"
  defines "A0 \<equiv> map (\<lambda>t. t * delta) (cumsum (0 # theta))"
  assumes v: "1 \<le> length v" and k: "k < length v"
    and r: "0 < r" "\<forall>d \<in> set v. norm2 d = r"
    and ori: "orientation = wrap_angle (arctan2 1 0 - phi k)"
  shows "map cos (map (\<lambda>t. t + (orientation - A0 ! k)) A0) = map (\<lambda>d. fst d / r) v"
    and "map sin (map (\<lambda>t. t + (orientation - A0 ! k)) A0) = map (\<lambda>d. snd d / r) v"
proof -
  let ?m = "length v"
  have lenT: "length T = ?m - 1"
    by (simp add: T_def)
  have len_theta: "length theta = ?m - 1"
    by (simp add: theta_def lenT)
  have delta: "delta = 1 / real ?m"
    using v by (simp add: delta_def len_theta)
  have lenA0: "length A0 = ?m"
    using v by (simp add: A0_def cumsum_def cumsum_from_length len_theta)
  have A0_nth: "A0 ! j = sum_list (take j T)" if "j < ?m" for j
  proof -
    have j: "j \<le> length theta"
      using that by (simp add: len_theta)
    have "A0 ! j = sum_list (take j theta) * delta"
      using that lenA0 cumsum_zero_nth [OF j] by (simp add: A0_def)
    also have "take j theta = map (\<lambda>t. t * real ?m) (take j T)"
      by (simp add: theta_def take_map)
    also have "sum_list (map (\<lambda>t. t * real ?m) (take j T)) = sum_list (take j T) * real ?m"
      using sum_list_mult_const [of "\<lambda>t. t" "real ?m" "take j T"] by simp
    finally show ?thesis
      using v by (cases v) (simp_all add: delta)
  qed
  have T_nth: "\<exists>l::int. T ! i = phi i - phi (Suc i) + 2 * pi * of_int l"
    if "i < length T" for i
  proof -
    have i: "Suc i < ?m"
      using that by (simp add: lenT)
    obtain l :: int where "wrap_angle (phi i - phi (Suc i))
        = phi i - phi (Suc i) - 2 * pi * of_int l"
      using wrap_angle_shift by blast
    then have "T ! i = phi i - phi (Suc i) + 2 * pi * of_int (- l)"
      unfolding T_def turning_angles_nth [OF i] by (simp add: phi_def)
    then show ?thesis
      by blast
  qed
  have sums: "\<exists>l::int. A0 ! j = phi 0 - phi j + 2 * pi * of_int l" if "j < ?m" for j
  proof -
    have "j \<le> length T"
      using that by (simp add: lenT)
    with T_nth have "\<exists>l::int. sum_list (take j T) = phi 0 - phi j + 2 * pi * of_int l"
      by (intro telescope) simp_all
    then show ?thesis
      by (simp add: A0_nth [OF that])
  qed
  have angle: "\<exists>l::int. A0 ! j + (orientation - A0 ! k) = pi / 2 - phi j + 2 * pi * of_int l"
    if j: "j < ?m" for j
  proof -
    obtain a :: int where a: "A0 ! j = phi 0 - phi j + 2 * pi * of_int a"
      using sums [OF j] by blast
    obtain b :: int where b: "A0 ! k = phi 0 - phi k + 2 * pi * of_int b"
      using sums [OF k] by blast
    obtain c :: int where c: "orientation = pi / 2 - phi k - 2 * pi * of_int c"
      using wrap_angle_shift [of "arctan2 1 0 - phi k"] by (auto simp: ori arctan2_def)
    have "A0 ! j + (orientation - A0 ! k) = pi / 2 - phi j + 2 * pi * of_int (a - c - b)"
      by (simp add: a b c algebra_simps)
    then show ?thesis
      by blast
  qed
  have polar: "sin (phi j) = fst (v ! j) / r \<and> cos (phi j) = snd (v ! j) / r"
    if "j < ?m" for j
  proof -
    have n: "norm2 (v ! j) = r"
      using that r(2) by simp
    then have "fst (v ! j) \<noteq> 0 \<or> snd (v ! j) \<noteq> 0"
      using r(1) by (intro norm2_positive) simp
    then show ?thesis
      using arctan2_sin_cos [of "fst (v ! j)" "snd (v ! j)"] n
      by (simp add: phi_def norm2_def)
  qed
  have trig: "cos (A0 ! j + (orientation - A0 ! k)) = fst (v ! j) / r
            \<and> sin (A0 ! j + (orientation - A0 ! k)) = snd (v ! j) / r"
    if j: "j < ?m" for j
  proof -
    obtain l :: int where "A0 ! j + (orientation - A0 ! k) = pi / 2 - phi j + 2 * pi * of_int l"
      using angle [OF j] by blast
    then have "cos (A0 ! j + (orientation - A0 ! k)) = cos (pi / 2 - phi j)"
      and "sin (A0 ! j + (orientation - A0 ! k)) = sin (pi / 2 - phi j)"
      by (simp_all only: sin_cos_shift)
    then show ?thesis
      using polar [OF j] by (simp add: cos_diff sin_diff)
  qed
  show "map cos (map (\<lambda>t. t + (orientation - A0 ! k)) A0) = map (\<lambda>d. fst d / r) v"
    using trig by (intro nth_equalityI) (simp_all add: lenA0)
  show "map sin (map (\<lambda>t. t + (orientation - A0 ! k)) A0) = map (\<lambda>d. snd d / r) v"
    using trig by (intro nth_equalityI) (simp_all add: lenA0)
qed

text \<open>
  C1. For every center line \<open>C\<close> of at least two points (so also of at least five) whose
  consecutive points are all the same positive distance \<open>r\<close> apart,
  \<^verbatim>\<open>center_from_theta_discrete\<close> applied to the angles, orientation, anchor and length
  that \<^verbatim>\<open>theta_from_center_discrete\<close> returns for \<open>C\<close> gives \<open>C\<close> back; on the reals
  the two curves are equal.
\<close>

theorem theta_center_round_trip_uniform:
  assumes "2 \<le> length C" and "0 < r" and "\<forall>d \<in> set (diff2 C). norm2 d = r"
  shows "\<exists>theta orientation xy len.
           theta_from_center_discrete ext C None None False smooth
             = Inr (theta, orientation, xy, len)
           \<and> center_from_theta_discrete ext theta orientation xy len None None False
                 smooth' False
             = Inr (C, None)"
proof -
  define v where "v = diff2 C"
  define k where "k = (length C - 1) div 2"
  define theta where "theta = map (\<lambda>t. t * real (length v))
     (map wrap_angle
        (map2 (\<lambda>a b. arctan2 (fst a) (snd a) - arctan2 (fst b) (snd b))
           (butlast v) (tl v)))"
  define orientation where
    "orientation = wrap_angle (arctan2 1 0 - arctan2 (fst (v ! k)) (snd (v ! k)))"
  define len where "len = sum_list (map norm2 v)"
  have lenv: "length v = length C - 1"
    by (simp add: v_def diff2_length)
  have v1: "1 \<le> length v" and kv: "k < length v" and kC: "k < length C"
    using assms(1) by (simp_all add: lenv k_def)
  have forward: "theta_from_center_discrete ext C None None False smooth
                   = Inr (theta, orientation, C ! k, len)"
    unfolding theta_from_center_discrete_default [OF assms(1)]
    by (simp add: theta_def orientation_def len_def v_def k_def diff2_length)
  have len_theta: "length theta = length v - 1"
    by (simp add: theta_def)
  have k': "(length theta + 1) div 2 = k"
    using v1 by (simp add: len_theta lenv k_def)
  define delta where "delta = 1 / (real (length theta) + 1)"
  define A0 where "A0 = map (\<lambda>t. t * delta) (cumsum (0 # theta))"
  define A where "A = map (\<lambda>t. t + (orientation - A0 ! k)) A0"
  define P where "P = map (pscale (len * delta))
                        ((0, 0) # zip (cumsum (map cos A)) (cumsum (map sin A)))"
  have backward: "center_from_theta_discrete ext theta orientation (C ! k) len None None
                     False smooth' False
                   = Inr (map (\<lambda>p. padd p (psub (C ! k) (P ! k))) P, None)"
    unfolding P_def A_def A0_def delta_def k' [symmetric]
    by (rule center_from_theta_discrete_default)
  have rv: "\<forall>d \<in> set v. norm2 d = r"
    using assms(3) by (simp add: v_def)
  have cosA: "map cos A = map (\<lambda>d. fst d / r) v"
    and sinA: "map sin A = map (\<lambda>d. snd d / r) v"
    unfolding A_def A0_def delta_def theta_def
    using segment_angles [OF v1 kv assms(2) rv, of orientation]
    by (simp_all add: orientation_def)
  have "len = real (length v) * r"
    unfolding len_def using rv by (rule sum_list_constant)
  moreover have "delta = 1 / real (length v)"
    using v1 by (simp add: delta_def len_theta)
  ultimately have scale: "len * delta = r"
    using v1 by (cases v) simp_all
  have "C \<noteq> []"
    using assms(1) by auto
  then have P: "P = map (\<lambda>q. psub q (C ! 0)) C"
    unfolding P_def cosA sinA scale v_def
    using assms(2) by (intro center_from_unit_steps) simp_all
  have "padd p (psub (C ! k) (P ! k)) = padd p (C ! 0)" for p
    using kC by (simp add: P padd_def psub_def)
  then have "map (\<lambda>p. padd p (psub (C ! k) (P ! k))) P
               = map (\<lambda>q. padd (psub q (C ! 0)) (C ! 0)) C"
    by (simp add: P)
  also have "\<dots> = C"
    by (simp add: padd_def psub_def map_idI)
  finally show ?thesis
    using forward backward by simp
qed

theorem theta_center_round_trip_uniform_witness:
  "\<exists>theta orientation xy len.
     theta_from_center_discrete no_resampling
        [(0, 0), (1, 0), (1, 1), (2, 1), (2, 2)] None None False 0
       = Inr (theta, orientation, xy, len)
     \<and> center_from_theta_discrete no_resampling
        theta orientation xy len None None False 0 False
       = Inr ([(0, 0), (1, 0), (1, 1), (2, 1), (2, 2)], None)"
  using theta_center_round_trip_uniform
    [of "[(0, 0), (1, 0), (1, 1), (2, 1), (2, 2)]" 1 no_resampling 0 0]
  by (simp add: norm2_def)

text \<open>
  Without equal spacing the round trip does not give the center line back. The five
  points \<open>0, 1, 3, 4, 5\<close> on the \<open>x\<close> axis come back as \<open>1/2, 7/4, 3, 17/4, 11/2\<close>: the
  reconstruction steps by a quarter of the length everywhere. The first point is off by
  \<open>1/2\<close>, a tenth of the length of the curve.
\<close>

theorem theta_center_round_trip_not_uniform:
  "theta_from_center_discrete no_resampling [(0, 0), (1, 0), (3, 0), (4, 0), (5, 0)]
       None None False 0
     = Inr ([0, 0, 0], 0, (3, 0), 5)
   \<and> center_from_theta_discrete no_resampling [0, 0, 0] 0 (3, 0) 5 None None False 0 False
     = Inr ([(1 / 2, 0), (7 / 4, 0), (3, 0), (17 / 4, 0), (11 / 2, 0)], None)
   \<and> norm2 (psub (1 / 2, 0) (0, 0)) = 1 / 2"
proof -
  have z: "wrap_angle 0 = 0"
    by (rule wrap_angle_id) simp_all
  have forward:
    "theta_from_center_discrete no_resampling [(0, 0), (1, 0), (3, 0), (4, 0), (5, 0)]
        None None False 0
      = Inr ([0, 0, 0], 0, (3, 0), 5)"
    by (simp add: theta_from_center_discrete_default arctan2_def z norm2_def)
  have backward:
    "center_from_theta_discrete no_resampling [0, 0, 0] 0 (3, 0) 5 None None False 0 False
      = Inr ([(1 / 2, 0), (7 / 4, 0), (3, 0), (17 / 4, 0), (11 / 2, 0)], None)"
    unfolding center_from_theta_discrete_default
    by (simp add: cumsum_def pscale_def padd_def psub_def)
  have "norm2 (psub (1 / 2, 0) (0, 0)) = 1 / 2"
    using real_sqrt_abs [of "1 / 2"] by (simp add: norm2_def psub_def power2_eq_square)
  then show ?thesis
    using forward backward by simp
qed

end
